theory Spec2Isabelle
  imports Complex_Main
begin

section \<open>The number game: data\<close>

text \<open>
  The game object of \<^verbatim>\<open>number_game.py\<close> holds three configuration integers and a
  dictionary of two counters. Python integers are unbounded, so they are \<open>int\<close>.
\<close>

record config =
  min_num :: int
  max_num :: int
  max_attempts :: int

record stats =
  games :: int
  wins :: int

text \<open>The exceptions that the modelled code can raise.\<close>

datatype exn = ValueError | OSError | ZeroDivisionError

text \<open>
  A call either returns a value, raises, or never returns because it waits for a
  keystroke that does not come.
\<close>

datatype 'a res = Ok 'a | Raise exn | Block

subsection \<open>Characters and strings of Python\<close>

text \<open>
  A key is the one-character string that \<^verbatim>\<open>sys.stdin.read(1)\<close> delivers. It is
  modelled as a \<open>char\<close>, read as a code point below 256. In that range
  \<^verbatim>\<open>str.isdigit\<close> holds for the ten decimal digits and for the superscripts
  U+00B2, U+00B3 and U+00B9, while \<^verbatim>\<open>int\<close> parses only the ten decimal digits.
\<close>

definition isdecimal :: "char \<Rightarrow> bool" where
  "isdecimal c \<longleftrightarrow> c \<in> set ''0123456789''"

definition isdigit :: "char \<Rightarrow> bool" where
  "isdigit c \<longleftrightarrow> isdecimal c \<or> c \<in> set [CHR 0xB2, CHR 0xB3, CHR 0xB9]"

definition str_isdigit :: "string \<Rightarrow> bool" where
  \<comment> \<open>\<^verbatim>\<open>s.isdigit()\<close>: false on the empty string\<close>
  "str_isdigit s \<longleftrightarrow> s \<noteq> [] \<and> list_all isdigit s"

definition digit_value :: "char \<Rightarrow> int" where
  "digit_value c = int (of_char c) - 48"

definition py_int :: "string \<Rightarrow> exn + int" where
  \<comment> \<open>\<^verbatim>\<open>int(s)\<close> on a string that passed \<^verbatim>\<open>isdigit()\<close>: a superscript digit
      is an invalid literal\<close>
  "py_int s =
     (if s \<noteq> [] \<and> list_all isdecimal s
      then Inr (foldl (\<lambda>n c. 10 * n + digit_value c) 0 s)
      else Inl ValueError)"

definition lower :: "char \<Rightarrow> char" where
  \<comment> \<open>\<^verbatim>\<open>ch.lower()\<close>: A to Z and the capital letters U+00C0 to U+00DE, the
      multiplication sign U+00D7 apart, move up by 32\<close>
  "lower c =
     (let n = of_char c :: nat
      in if (65 \<le> n \<and> n \<le> 90) \<or> (192 \<le> n \<and> n \<le> 222 \<and> n \<noteq> 215)
         then char_of (n + 32) else c)"

fun str_nat :: "nat \<Rightarrow> string" where
  "str_nat n =
     (if n < 10 then [char_of (48 + n)]
      else str_nat (n div 10) @ [char_of (48 + n mod 10)])"

definition py_str :: "int \<Rightarrow> string" where
  \<comment> \<open>\<^verbatim>\<open>str(n)\<close> of an integer: a minus sign, then the decimal digits\<close>
  "py_str n = (if n < 0 then CHR ''-'' # str_nat (nat (- n)) else str_nat (nat n))"

subsection \<open>The terminal and what the program emits\<close>

text \<open>
  The terminal settings that \<^verbatim>\<open>tty.setraw\<close> switches off: line buffering, echo,
  signal keys and output processing.
\<close>

record termios =
  icanon :: bool
  echo :: bool
  isig :: bool
  opost :: bool

text \<open>
  What one call of \<^verbatim>\<open>get_key\<close> meets: a key arrives, or the read raises.
\<close>

datatype inp = Key char | Read_error

datatype tone = C5 | E5 | G5 | G4 | F4 | E4 | A4 | Bb4

text \<open>
  One event for each \<^verbatim>\<open>print\<close>, \<^verbatim>\<open>sys.stdout.write\<close>, screen clearing and beep of the
  source, with the values that the message shows. A beep carries its note and its
  duration in milliseconds.
\<close>

datatype event =
    Write_prompt int int string
  | Game_interrupted
  | Erase_char
  | Newline
  | Invalid_number
  | Out_of_range int int
  | Clear_screen
  | New_game
  | Thinking_of int int
  | You_have int
  | Attempts_remaining int
  | Beep tone nat
  | Congratulations int
  | Too string
  | Game_over int
  | Final_stats
  | Games_played int
  | Games_won int
  | Win_rate rat
  | Thanks

text \<open>
  The world outside the program: the terminal settings, the keys still to come (an empty
  list means that no key arrives any more, so a read waits forever), and everything
  emitted so far, oldest first.
\<close>

record world =
  attrs :: termios
  feed :: "inp list"
  out :: "event list"

definition emit :: "event list \<Rightarrow> world \<Rightarrow> world" where
  "emit es w = w\<lparr>out := out w @ es\<rparr>"

section \<open>Reading one key\<close>

definition tcgetattr :: "world \<Rightarrow> termios" where
  "tcgetattr w = attrs w"

definition tcsetattr :: "termios \<Rightarrow> world \<Rightarrow> world" where
  "tcsetattr t w = w\<lparr>attrs := t\<rparr>"

definition setraw :: "world \<Rightarrow> world" where
  "setraw w = w\<lparr>attrs := (attrs w)\<lparr>icanon := False, echo := False, isig := False, opost := False\<rparr>\<rparr>"

definition read1 :: "world \<Rightarrow> char res \<times> world" where
  \<comment> \<open>\<^verbatim>\<open>sys.stdin.read(1)\<close>\<close>
  "read1 w =
     (case feed w of
        [] \<Rightarrow> (Block, w)
      | Key c # ks \<Rightarrow> (Ok c, w\<lparr>feed := ks\<rparr>)
      | Read_error # ks \<Rightarrow> (Raise OSError, w\<lparr>feed := ks\<rparr>))"

definition try_finally ::
  "(world \<Rightarrow> 'a res \<times> world) \<Rightarrow> (world \<Rightarrow> world) \<Rightarrow> world \<Rightarrow> 'a res \<times> world" where
  \<comment> \<open>\<^verbatim>\<open>try: body finally: fin\<close>: when the body returns or raises, the handler runs
      and the result or the exception goes on\<close>
  "try_finally body fin w =
     (case body w of
        (Block, w') \<Rightarrow> (Block, w')
      | (r, w') \<Rightarrow> (r, fin w'))"

definition get_key :: "world \<Rightarrow> char res \<times> world" where
  "get_key w =
     (let old_settings = tcgetattr w
      in try_finally (\<lambda>w. read1 (setraw w)) (tcsetattr old_settings) w)"

section \<open>The guess editor\<close>

datatype guess_ret = Quit_str | Num int

text \<open>
  The body of the loop of \<^verbatim>\<open>get_guess\<close> after the key is read: what it emits, and
  whether the loop goes on with a new buffer, returns, or raises.
\<close>

datatype step = Continue string | Return guess_ret | Throw exn

definition on_key :: "config \<Rightarrow> string \<Rightarrow> char \<Rightarrow> event list \<times> step" where
  "on_key cfg guess ch =
     (if lower ch = CHR ''x'' then ([Game_interrupted], Return Quit_str)
      else if ch \<in> set [CHR 0x7F, CHR 0x08] \<and> guess \<noteq> [] then ([Erase_char], Continue (butlast guess))
      else if ch = CHR 0x0D then
        (if guess = [] then ([Newline], Continue guess)
         else if \<not> str_isdigit guess then ([Newline, Invalid_number], Continue [])
         else case py_int guess of
                Inl e \<Rightarrow> ([Newline], Throw e)
              | Inr num \<Rightarrow>
                  if \<not> (min_num cfg \<le> num \<and> num \<le> max_num cfg)
                  then ([Newline, Out_of_range (min_num cfg) (max_num cfg)], Continue [])
                  else ([Newline], Return (Num num)))
      else if isdigit ch \<and> length guess < length (py_str (max_num cfg))
      then ([], Continue (guess @ [ch]))
      else ([], Continue guess))"

text \<open>
  How the loop of \<^verbatim>\<open>get_guess\<close> ends: it returns, it raises, or it waits for a key
  with the buffer that it holds at that moment.
\<close>

datatype guess_exit = Returns guess_ret | Raises exn | Blocks string

function guess_loop :: "config \<Rightarrow> string \<Rightarrow> world \<Rightarrow> guess_exit \<times> world" where
  "guess_loop cfg guess w =
     (case get_key (emit [Write_prompt (min_num cfg) (max_num cfg) guess] w) of
        (Block, w') \<Rightarrow> (Blocks guess, w')
      | (Raise e, w') \<Rightarrow> (Raises e, w')
      | (Ok ch, w') \<Rightarrow>
          (case on_key cfg guess ch of
             (es, Continue guess') \<Rightarrow> guess_loop cfg guess' (emit es w')
           | (es, Return r) \<Rightarrow> (Returns r, emit es w')
           | (es, Throw e) \<Rightarrow> (Raises e, emit es w')))"
  by pat_completeness auto

termination guess_loop
  by (relation "measure (\<lambda>(cfg, guess, w). length (feed w))")
    (auto simp: get_key_def try_finally_def read1_def setraw_def tcsetattr_def emit_def
      split: list.splits inp.splits)

declare guess_loop.simps [simp del]

definition get_guess :: "config \<Rightarrow> world \<Rightarrow> guess_exit \<times> world" where
  "get_guess cfg w = guess_loop cfg [] w"

section \<open>Sounds and statistics\<close>

definition clear_screen :: "world \<Rightarrow> world" where
  "clear_screen w = emit [Clear_screen] w"

definition beep :: "tone \<Rightarrow> nat \<Rightarrow> event list" where
  "beep frequency duration = [Beep frequency duration]"

definition play_sound :: "string \<Rightarrow> bool option \<Rightarrow> world \<Rightarrow> world" where
  \<comment> \<open>\<^verbatim>\<open>too_low\<close> defaults to \<^verbatim>\<open>None\<close>, which counts as false\<close>
  "play_sound sound_type too_low w =
     (if sound_type = ''win'' then emit (concat (map (\<lambda>freq. beep freq 150) [C5, E5, G5])) w
      else if sound_type = ''lose'' then emit (concat (map (\<lambda>freq. beep freq 150) [G4, F4, E4])) w
      else if sound_type = ''hint'' then emit (beep (if too_low = Some True then A4 else Bb4) 100) w
      else w)"

definition truediv :: "int \<Rightarrow> int \<Rightarrow> exn + rat" where
  \<comment> \<open>\<^verbatim>\<open>a / b\<close> on integers, as the exact quotient; the rounding to a float and the
      one decimal place of the display are left out\<close>
  "truediv a b = (if b = 0 then Inl ZeroDivisionError else Inr (of_int a / of_int b))"

definition show_stats :: "stats \<Rightarrow> world \<Rightarrow> unit res \<times> world" where
  "show_stats st w =
     (let w1 = emit [Final_stats, Games_played (games st), Games_won (wins st)] w
      in if games st > 0 then
           (case truediv (wins st) (games st) of
              Inl e \<Rightarrow> (Raise e, w1)
            | Inr q \<Rightarrow> (Ok (), emit [Win_rate (q * 100), Thanks] w1))
         else (Ok (), emit [Thanks] w1))"

section \<open>One round\<close>

text \<open>
  How the \<^verbatim>\<open>while\<close> loop of \<^verbatim>\<open>play_round\<close> ends: by the \<^verbatim>\<open>return\<close> inside it, by
  an exception, waiting for a key, by \<^verbatim>\<open>break\<close>, or because its condition is false.
\<close>

datatype loop_exit = Loop_returns string | Loop_raises exn | Loop_blocks | Loop_break | Loop_ends

function round_loop ::
  "config \<Rightarrow> int \<Rightarrow> int \<Rightarrow> stats \<Rightarrow> world \<Rightarrow> loop_exit \<times> stats \<times> world" where
  "round_loop cfg target attempts st w =
     (if attempts > 0 then
        (case get_guess cfg (emit [Attempts_remaining attempts] w) of
           (Blocks g, w1) \<Rightarrow> (Loop_blocks, st, w1)
         | (Raises e, w1) \<Rightarrow> (Loop_raises e, st, w1)
         | (Returns Quit_str, w1) \<Rightarrow> (Loop_returns ''quit'', st\<lparr>games := games st + 1\<rparr>, w1)
         | (Returns (Num guess), w1) \<Rightarrow>
             if guess = target then
               (Loop_break, st\<lparr>wins := wins st + 1\<rparr>,
                emit [Congratulations target] (play_sound ''win'' None (clear_screen w1)))
             else
               let w2 = emit [Newline] w1;
                   w3 = play_sound ''hint'' (Some (guess < target)) w2;
                   hint = (if guess < target then ''low'' else ''high'');
                   w4 = emit [Too hint, Newline] w3;
                   attempts' = attempts - 1;
                   w5 = (if attempts' = 0
                         then emit [Game_over target] (play_sound ''lose'' None (clear_screen w4))
                         else w4)
               in round_loop cfg target attempts' st w5)
      else (Loop_ends, st, w))"
  by pat_completeness auto

termination round_loop
  by (relation "measure (\<lambda>(cfg, target, attempts, st, w). nat attempts)") auto

declare round_loop.simps [simp del]

definition round_setup :: "config \<Rightarrow> world \<Rightarrow> world" where
  \<comment> \<open>the lines under \<^verbatim>\<open># Show round setup\<close>\<close>
  "round_setup cfg w =
     emit [New_game, Thinking_of (min_num cfg) (max_num cfg), You_have (max_attempts cfg)]
       (clear_screen w)"

definition play_round :: "config \<Rightarrow> int \<Rightarrow> stats \<Rightarrow> world \<Rightarrow> string res \<times> stats \<times> world" where
  \<comment> \<open>\<^verbatim>\<open>target\<close> is the number that \<^verbatim>\<open>random.randint\<close> drew\<close>
  "play_round cfg target st w =
     (case round_loop cfg target (max_attempts cfg) st (round_setup cfg w) of
        (Loop_returns r, st', w') \<Rightarrow> (Ok r, st', w')
      | (Loop_raises e, st', w') \<Rightarrow> (Raise e, st', w')
      | (Loop_blocks, st', w') \<Rightarrow> (Block, st', w')
      | (Loop_break, st', w') \<Rightarrow> (Ok ''continue'', st'\<lparr>games := games st' + 1\<rparr>, w')
      | (Loop_ends, st', w') \<Rightarrow> (Ok ''continue'', st'\<lparr>games := games st' + 1\<rparr>, w'))"

section \<open>Concrete inputs\<close>

text \<open>
  The game as \<^verbatim>\<open>main\<close> constructs it, fresh counters, a terminal in its usual mode, and
  a player who types the given characters and then nothing more.
\<close>

definition default_game :: config where
  "default_game = \<lparr>min_num = 1, max_num = 10, max_attempts = 3\<rparr>"

definition no_games :: stats where
  "no_games = \<lparr>games = 0, wins = 0\<rparr>"

definition cooked :: termios where
  "cooked = \<lparr>icanon = True, echo = True, isig = True, opost = True\<rparr>"

definition typed :: "string \<Rightarrow> world" where
  "typed s = \<lparr>attrs = cooked, feed = map Key s, out = []\<rparr>"

definition CR :: char where
  "CR = CHR 0x0D"

text \<open>
  Following the spec's words: the decimal digit count of an integer is the number of
  digits of its absolute value. The source takes \<^verbatim>\<open>len(str(max_num))\<close> instead.
\<close>

fun digit_count_nat :: "nat \<Rightarrow> nat" where
  "digit_count_nat n = (if n < 10 then 1 else 1 + digit_count_nat (n div 10))"

definition decimal_digit_count :: "int \<Rightarrow> nat" where
  "decimal_digit_count n = digit_count_nat (nat \<bar>n\<bar>)"

text \<open>The buffers that the prompts among some events show, in their order.\<close>

fun buffers_shown :: "event list \<Rightarrow> string list" where
  "buffers_shown [] = []"
| "buffers_shown (Write_prompt lo hi b # es) = b # buffers_shown es"
| "buffers_shown (e # es) = buffers_shown es"

section \<open>Facts about characters and keys\<close>

lemma lower_x_iff: "lower ch = CHR ''x'' \<longleftrightarrow> ch = CHR ''x'' \<or> ch = CHR ''X''"
proof -
  have lt: "(of_char ch :: nat) < 256" by simp
  have x: "ch = CHR ''x'' \<longleftrightarrow> (of_char ch :: nat) = 120"
    using of_char_eq_iff [of ch "CHR ''x''", where ?'a = nat] by simp
  have X: "ch = CHR ''X'' \<longleftrightarrow> (of_char ch :: nat) = 88"
    using of_char_eq_iff [of ch "CHR ''X''", where ?'a = nat] by simp
  have up: "char_of (of_char ch + 32 :: nat) = CHR ''x'' \<longleftrightarrow> (of_char ch + 32 :: nat) mod 256 = 120"
    by (simp add: char_of_eq_iff take_bit_eq_mod)
  show ?thesis
    unfolding lower_def Let_def x X using lt
    by (auto simp: up x)
qed

lemma isdigit_not_control:
  "isdigit ch \<Longrightarrow> lower ch \<noteq> CHR ''x'' \<and> ch \<noteq> CHR 0x7F \<and> ch \<noteq> CHR 0x08 \<and> ch \<noteq> CHR 0x0D"
  by (auto simp: isdigit_def isdecimal_def lower_x_iff)

lemma get_key_Nil:
  "feed w = [] \<Longrightarrow> get_key w = (Block, setraw w)"
  by (simp add: get_key_def try_finally_def read1_def setraw_def)

lemma get_key_Key:
  "feed w = Key ch # ks \<Longrightarrow> get_key w = (Ok ch, w\<lparr>feed := ks\<rparr>)"
  by (simp add: get_key_def try_finally_def read1_def setraw_def tcsetattr_def tcgetattr_def)

lemma get_key_Read_error:
  "feed w = Read_error # ks \<Longrightarrow> get_key w = (Raise OSError, w\<lparr>feed := ks\<rparr>)"
  by (simp add: get_key_def try_finally_def read1_def setraw_def tcsetattr_def tcgetattr_def)

section \<open>One turn of the editor's loop\<close>

lemma guess_loop_Nil:
  "feed w = [] \<Longrightarrow>
   guess_loop cfg g w = (Blocks g, setraw (emit [Write_prompt (min_num cfg) (max_num cfg) g] w))"
  by (subst guess_loop.simps) (simp add: get_key_Nil emit_def)

lemma guess_loop_Read_error:
  "feed w = Read_error # ks \<Longrightarrow>
   guess_loop cfg g w =
     (Raises OSError, (emit [Write_prompt (min_num cfg) (max_num cfg) g] w)\<lparr>feed := ks\<rparr>)"
  by (subst guess_loop.simps) (simp add: get_key_Read_error emit_def)

lemma guess_loop_Key:
  "feed w = Key ch # ks \<Longrightarrow>
   guess_loop cfg g w =
     (let w' = (emit [Write_prompt (min_num cfg) (max_num cfg) g] w)\<lparr>feed := ks\<rparr>
      in case on_key cfg g ch of
           (es, Continue g') \<Rightarrow> guess_loop cfg g' (emit es w')
         | (es, Return r) \<Rightarrow> (Returns r, emit es w')
         | (es, Throw e) \<Rightarrow> (Raises e, emit es w'))"
  by (subst guess_loop.simps) (simp add: get_key_Key emit_def)

section \<open>An accepted guess is in range\<close>

lemma on_key_Return_Num:
  "on_key cfg g ch = (es, Return (Num n)) \<Longrightarrow> min_num cfg \<le> n \<and> n \<le> max_num cfg"
  by (auto simp: on_key_def split: if_splits sum.splits)

lemma guess_loop_in_range:
  "fst (guess_loop cfg g w) = Returns (Num n) \<Longrightarrow> min_num cfg \<le> n \<and> n \<le> max_num cfg"
proof (induction "feed w" arbitrary: g w)
  case Nil
  then show ?case by (simp add: guess_loop_Nil)
next
  case (Cons k ks)
  show ?case
  proof (cases k)
    case Read_error
    with Cons.hyps(2) Cons.prems show ?thesis
      by (simp add: guess_loop_Read_error [of w ks])
  next
    case (Key ch)
    then have fw: "feed w = Key ch # ks" using Cons.hyps(2) by simp
    obtain es s where ok: "on_key cfg g ch = (es, s)" by (cases "on_key cfg g ch")
    show ?thesis
    proof (cases s)
      case (Continue g')
      let ?w = "emit es ((emit [Write_prompt (min_num cfg) (max_num cfg) g] w)\<lparr>feed := ks\<rparr>)"
      have "ks = feed ?w" by (simp add: emit_def)
      moreover have "fst (guess_loop cfg g' ?w) = Returns (Num n)"
        using Cons.prems ok Continue by (simp add: guess_loop_Key [OF fw])
      ultimately show ?thesis by (rule Cons.hyps(1))
    next
      case (Return r)
      with Cons.prems ok have "r = Num n" by (simp add: guess_loop_Key [OF fw])
      with ok Return show ?thesis by (auto dest: on_key_Return_Num)
    next
      case (Throw e)
      with Cons.prems ok show ?thesis by (simp add: guess_loop_Key [OF fw])
    qed
  qed
qed

text \<open>
  C1. In a game whose lower bound is below its upper bound, whatever keys arrive and
  whatever the terminal does, a number that \<^verbatim>\<open>get_guess\<close> returns lies between the two
  bounds, both included.
\<close>

theorem get_guess_in_range:
  assumes "min_num cfg < max_num cfg"
    and "fst (get_guess cfg w) = Returns (Num n)"
  shows "min_num cfg \<le> n \<and> n \<le> max_num cfg"
  using assms(2) unfolding get_guess_def by (rule guess_loop_in_range)

theorem get_guess_in_range_witness:
  "min_num default_game < max_num default_game
   \<and> fst (get_guess default_game (typed (''7'' @ [CR]))) = Returns (Num 7)
   \<and> min_num default_game \<le> 7 \<and> 7 \<le> max_num default_game"
proof -
  have a: "min_num default_game < max_num default_game"
    by (simp add: default_game_def)
  have b: "fst (get_guess default_game (typed (''7'' @ [CR]))) = Returns (Num 7)"
    by code_simp
  from a b get_guess_in_range [OF a b] show ?thesis by simp
qed

section \<open>The quit key\<close>

text \<open>
  C7. Whatever the buffer holds, the key \<open>x\<close> or \<open>X\<close> makes the body of the loop
  return the quit value, and \<^verbatim>\<open>get_guess\<close> returns it at once: only that key is taken
  from the terminal, and the result keeps nothing of the buffer. The test for this key
  is the first one of the body, before the ones for deletion, submission and digits.
\<close>

theorem quit_key_returns:
  assumes "ch = CHR ''x'' \<or> ch = CHR ''X''"
    and "feed w = Key ch # ks"
  shows "on_key cfg guess ch = ([Game_interrupted], Return Quit_str)
    \<and> guess_loop cfg guess w =
        (Returns Quit_str,
         w\<lparr>feed := ks,
           out := out w @ [Write_prompt (min_num cfg) (max_num cfg) guess, Game_interrupted]\<rparr>)"
proof -
  from assms(1) have "lower ch = CHR ''x''" by (simp add: lower_x_iff)
  then have ok: "on_key cfg guess ch = ([Game_interrupted], Return Quit_str)"
    by (simp add: on_key_def)
  then show ?thesis
    by (simp add: guess_loop_Key [OF assms(2)] emit_def)
qed

theorem quit_key_returns_witness:
  "(CHR ''X'' = CHR ''x'' \<or> CHR ''X'' = CHR ''X'')
   \<and> feed (typed ''X3'') = Key (CHR ''X'') # [Key (CHR ''3'')]
   \<and> on_key default_game ''12'' (CHR ''X'') = ([Game_interrupted], Return Quit_str)
   \<and> guess_loop default_game ''12'' (typed ''X3'') =
       (Returns Quit_str,
        \<lparr>attrs = cooked, feed = [Key (CHR ''3'')],
         out = [Write_prompt 1 10 ''12'', Game_interrupted]\<rparr>)"
proof -
  have a: "CHR ''X'' = CHR ''x'' \<or> CHR ''X'' = CHR ''X''" by simp
  have b: "feed (typed ''X3'') = Key (CHR ''X'') # [Key (CHR ''3'')]" by (simp add: typed_def)
  from quit_key_returns [OF a b, of default_game "''12''"] a b show ?thesis
    by (simp add: typed_def default_game_def)
qed

section \<open>Keys that leave an empty buffer as it is\<close>

text \<open>
  C9. With an empty buffer, a carriage return emits a line break and nothing else (no
  word about an invalid or out-of-range number), and a delete or backspace key emits
  nothing; in each case the buffer stays empty and the loop goes on exactly as it would
  have from the empty buffer without that key.
\<close>

theorem empty_buffer_noop:
  assumes "ch = CHR 0x0D \<or> ch = CHR 0x7F \<or> ch = CHR 0x08"
    and "feed w = Key ch # ks"
  shows "on_key cfg [] ch = (if ch = CHR 0x0D then [Newline] else [], Continue [])
    \<and> guess_loop cfg [] w =
        guess_loop cfg []
          (w\<lparr>feed := ks,
             out := out w @ Write_prompt (min_num cfg) (max_num cfg) []
                      # (if ch = CHR 0x0D then [Newline] else [])\<rparr>)"
proof -
  from assms(1) have nx: "lower ch \<noteq> CHR ''x''" by (auto simp: lower_x_iff)
  from assms(1) have nd: "\<not> isdigit ch" by (auto simp: isdigit_def isdecimal_def)
  from nx nd have ok: "on_key cfg [] ch = (if ch = CHR 0x0D then [Newline] else [], Continue [])"
    by (simp add: on_key_def)
  then show ?thesis
    by (simp add: guess_loop_Key [OF assms(2)] emit_def)
qed

theorem empty_buffer_noop_witness:
  "(CR = CHR 0x0D \<or> CR = CHR 0x7F \<or> CR = CHR 0x08)
   \<and> feed (typed [CR, CR]) = Key CR # [Key CR]
   \<and> on_key default_game [] CR = ([Newline], Continue [])
   \<and> guess_loop default_game [] (typed [CR, CR]) =
       (Blocks [],
        \<lparr>attrs = cooked\<lparr>icanon := False, echo := False, isig := False, opost := False\<rparr>,
         feed = [],
         out = [Write_prompt 1 10 [], Newline, Write_prompt 1 10 [], Newline,
                Write_prompt 1 10 []]\<rparr>)"
proof -
  have a: "CR = CHR 0x0D \<or> CR = CHR 0x7F \<or> CR = CHR 0x08" by (simp add: CR_def)
  have b: "feed (typed [CR, CR]) = Key CR # [Key CR]" by (simp add: typed_def)
  have c: "guess_loop default_game [] (typed [CR, CR]) =
       (Blocks [],
        \<lparr>attrs = cooked\<lparr>icanon := False, echo := False, isig := False, opost := False\<rparr>,
         feed = [],
         out = [Write_prompt 1 10 [], Newline, Write_prompt 1 10 [], Newline,
                Write_prompt 1 10 []]\<rparr>)"
    by code_simp
  from empty_buffer_noop [OF a b, of default_game] a b c show ?thesis
    by (simp add: CR_def)
qed

section \<open>The length of the buffer\<close>

lemma length_str_nat: "length (str_nat n) = digit_count_nat n"
proof (induction n rule: str_nat.induct)
  case (1 n)
  show ?case
  proof (cases "n < 10")
    case True
    then show ?thesis by simp
  next
    case False
    with 1 show ?thesis
      by (subst str_nat.simps, subst digit_count_nat.simps) simp
  qed
qed

lemma length_py_str:
  "length (py_str n) = (if n < 0 then decimal_digit_count n + 1 else decimal_digit_count n)"
  by (simp add: py_str_def decimal_digit_count_def length_str_nat del: str_nat.simps digit_count_nat.simps)

lemma on_key_digit:
  "isdigit ch \<Longrightarrow>
   on_key cfg g ch =
     ([], Continue (if length g < length (py_str (max_num cfg)) then g @ [ch] else g))"
  using isdigit_not_control [of ch] by (simp add: on_key_def)

lemma on_key_length:
  assumes "on_key cfg g ch = (es, Continue g')" and "length g \<le> length (py_str (max_num cfg))"
  shows "length g' \<le> length (py_str (max_num cfg))"
proof -
  define n where "n = length (py_str (max_num cfg))"
  from assms show ?thesis
    unfolding on_key_def n_def [symmetric]
    by (auto split: if_splits sum.splits)
qed

lemma buffers_shown_append: "buffers_shown (es @ fs) = buffers_shown es @ buffers_shown fs"
  by (induction es rule: buffers_shown.induct) simp_all

lemma on_key_no_prompt: "buffers_shown (fst (on_key cfg g ch)) = []"
  by (simp add: on_key_def split: sum.splits)

lemma guess_loop_Blocks_length:
  "length g \<le> length (py_str (max_num cfg)) \<Longrightarrow> fst (guess_loop cfg g w) = Blocks b \<Longrightarrow>
   length b \<le> length (py_str (max_num cfg))"
proof (induction "feed w" arbitrary: g w)
  case Nil
  then show ?case by (simp add: guess_loop_Nil)
next
  case (Cons k ks)
  show ?case
  proof (cases k)
    case Read_error
    with Cons.hyps(2) Cons.prems show ?thesis
      by (simp add: guess_loop_Read_error [of w ks])
  next
    case (Key ch)
    then have fw: "feed w = Key ch # ks" using Cons.hyps(2) by simp
    obtain es s where ok: "on_key cfg g ch = (es, s)" by (cases "on_key cfg g ch")
    show ?thesis
    proof (cases s)
      case (Continue g')
      let ?w = "emit es ((emit [Write_prompt (min_num cfg) (max_num cfg) g] w)\<lparr>feed := ks\<rparr>)"
      have "ks = feed ?w" by (simp add: emit_def)
      moreover have "length g' \<le> length (py_str (max_num cfg))"
        using ok Continue Cons.prems(1) by (auto intro: on_key_length)
      moreover have "fst (guess_loop cfg g' ?w) = Blocks b"
        using Cons.prems ok Continue by (simp add: guess_loop_Key [OF fw])
      ultimately show ?thesis by (rule Cons.hyps(1))
    next
      case (Return r)
      with Cons.prems ok show ?thesis by (simp add: guess_loop_Key [OF fw])
    next
      case (Throw e)
      with Cons.prems ok show ?thesis by (simp add: guess_loop_Key [OF fw])
    qed
  qed
qed

lemma guess_loop_prompts:
  "length g \<le> length (py_str (max_num cfg)) \<Longrightarrow>
   \<exists>es. out (snd (guess_loop cfg g w)) = out w @ es
     \<and> list_all (\<lambda>b. length b \<le> length (py_str (max_num cfg))) (buffers_shown es)"
proof (induction "feed w" arbitrary: g w)
  case Nil
  then show ?case by (simp add: guess_loop_Nil [OF Nil.hyps [symmetric]] setraw_def emit_def)
next
  case (Cons k ks)
  show ?case
  proof (cases k)
    case Read_error
    with Cons.hyps(2) Cons.prems show ?thesis
      by (simp add: guess_loop_Read_error [of w ks] emit_def)
  next
    case (Key ch)
    then have fw: "feed w = Key ch # ks" using Cons.hyps(2) by simp
    obtain es s where ok: "on_key cfg g ch = (es, s)" by (cases "on_key cfg g ch")
    have np: "buffers_shown es = []" using on_key_no_prompt [of cfg g ch] ok by simp
    show ?thesis
    proof (cases s)
      case (Continue g')
      let ?w = "emit es ((emit [Write_prompt (min_num cfg) (max_num cfg) g] w)\<lparr>feed := ks\<rparr>)"
      have "ks = feed ?w" by (simp add: emit_def)
      moreover have "length g' \<le> length (py_str (max_num cfg))"
        using ok Continue Cons.prems(1) by (auto intro: on_key_length)
      ultimately obtain fs where fs: "out (snd (guess_loop cfg g' ?w)) = out ?w @ fs"
        "list_all (\<lambda>b. length b \<le> length (py_str (max_num cfg))) (buffers_shown fs)"
        using Cons.hyps(1) by blast
      have "guess_loop cfg g w = guess_loop cfg g' ?w"
        using ok Continue by (simp add: guess_loop_Key [OF fw])
      with fs np Cons.prems show ?thesis
        by (simp add: emit_def buffers_shown_append)
    next
      case (Return r)
      with Cons.prems ok np show ?thesis
        by (simp add: guess_loop_Key [OF fw] emit_def buffers_shown_append)
    next
      case (Throw e)
      with Cons.prems ok np show ?thesis
        by (simp add: guess_loop_Key [OF fw] emit_def buffers_shown_append)
    qed
  qed
qed

text \<open>
  C8. The cap on the buffer is the length of \<^verbatim>\<open>str(max_num)\<close>: the decimal digit count
  of \<open>max_num\<close> when it is not negative, and one more, for the sign, when it is
  negative. Every prompt that \<^verbatim>\<open>get_guess\<close> writes shows a buffer no longer than the
  cap, and so does the buffer it holds whenever it waits for a key; a digit key is
  appended when the buffer is shorter than the cap, and leaves the buffer as it is
  otherwise.
\<close>

theorem buffer_capped:
  assumes "cap = (if max_num cfg < 0 then decimal_digit_count (max_num cfg) + 1
                  else decimal_digit_count (max_num cfg))"
  shows "list_all (\<lambda>b. length b \<le> cap)
           (buffers_shown (drop (length (out w)) (out (snd (get_guess cfg w)))))
    \<and> (fst (get_guess cfg w) = Blocks b \<longrightarrow> length b \<le> cap)
    \<and> (isdigit ch \<longrightarrow>
         on_key cfg guess ch = ([], Continue (if length guess < cap then guess @ [ch] else guess)))"
proof -
  have cap: "cap = length (py_str (max_num cfg))"
    using assms by (simp add: length_py_str)
  have "length ([] :: string) \<le> length (py_str (max_num cfg))" by simp
  from guess_loop_prompts [OF this, of w] guess_loop_Blocks_length [OF this, of w b]
    on_key_digit [of ch cfg guess]
  show ?thesis
    unfolding get_guess_def cap by auto
qed

theorem buffer_capped_witness:
  "buffers_shown (drop (length (out (typed ''123''))) (out (snd (get_guess default_game (typed ''123'')))))
     = [[], ''1'', ''12'', ''12'']
   \<and> fst (get_guess default_game (typed ''123'')) = Blocks ''12''
   \<and> length ''12'' \<le> decimal_digit_count (max_num default_game)
   \<and> isdigit (CHR ''3'')
   \<and> on_key default_game ''12'' (CHR ''3'') = ([], Continue ''12'')"
proof -
  have a: "(2::nat) = (if max_num default_game < 0 then decimal_digit_count (max_num default_game) + 1
                  else decimal_digit_count (max_num default_game))"
    by code_simp
  have b: "fst (get_guess default_game (typed ''123'')) = Blocks ''12''"
    by code_simp
  have c: "isdigit (CHR ''3'')"
    by code_simp
  have d: "buffers_shown (drop (length (out (typed ''123''))) (out (snd (get_guess default_game (typed ''123'')))))
     = [[], ''1'', ''12'', ''12'']"
    by code_simp
  from buffer_capped [OF a, of "typed ''123''" "''12''" "CHR ''3''" "''12''"] a b c d
  show ?thesis by (simp add: default_game_def)
qed

text \<open>
  With the range from \<open>-10\<close> to \<open>-5\<close>, the upper bound has one decimal digit, and
  the buffer takes two.
\<close>

theorem buffer_capped_counterexample:
  "fst (get_guess \<lparr>min_num = - 10, max_num = - 5, max_attempts = 3\<rparr> (typed ''12'')) = Blocks ''12''
   \<and> on_key \<lparr>min_num = - 10, max_num = - 5, max_attempts = 3\<rparr> ''1'' (CHR ''2'') = ([], Continue ''12'')
   \<and> decimal_digit_count (- 5) = 1
   \<and> \<not> length ''1'' < decimal_digit_count (- 5)
   \<and> \<not> length ''12'' \<le> decimal_digit_count (- 5)"
  by code_simp

section \<open>Letters, then a carriage return\<close>

text \<open>
  C2. From an empty buffer the keys \<open>a\<close>, \<open>b\<close>, \<open>c\<close> are dropped, since they
  are not digits, so the carriage return that follows finds the buffer empty: the editor
  writes its prompt before each key, a line break after the carriage return, and no word
  about an invalid number; it then waits for the next key with an empty buffer.
\<close>

theorem letters_then_submit:
  "get_guess cfg \<lparr>attrs = a, feed = map Key (''abc'' @ [CR]), out = es\<rparr> =
     (Blocks [],
      \<lparr>attrs = a\<lparr>icanon := False, echo := False, isig := False, opost := False\<rparr>,
       feed = [],
       out = es @ [Write_prompt (min_num cfg) (max_num cfg) [],
                   Write_prompt (min_num cfg) (max_num cfg) [],
                   Write_prompt (min_num cfg) (max_num cfg) [],
                   Write_prompt (min_num cfg) (max_num cfg) [],
                   Newline,
                   Write_prompt (min_num cfg) (max_num cfg) []]\<rparr>)"
proof -
  have a: "on_key cfg [] (CHR ''a'') = ([], Continue [])"
    by (simp add: on_key_def lower_def isdigit_def isdecimal_def)
  have b: "on_key cfg [] (CHR ''b'') = ([], Continue [])"
    by (simp add: on_key_def lower_def isdigit_def isdecimal_def)
  have c: "on_key cfg [] (CHR ''c'') = ([], Continue [])"
    by (simp add: on_key_def lower_def isdigit_def isdecimal_def)
  have r: "on_key cfg [] CR = ([Newline], Continue [])"
    by (simp add: on_key_def lower_def CR_def)
  show ?thesis
    by (simp add: get_guess_def guess_loop_Key guess_loop_Nil a b c r emit_def setraw_def)
qed

theorem letters_then_submit_witness:
  "get_guess default_game (typed (''abc'' @ [CR])) =
     (Blocks [],
      \<lparr>attrs = cooked\<lparr>icanon := False, echo := False, isig := False, opost := False\<rparr>,
       feed = [],
       out = [Write_prompt 1 10 [], Write_prompt 1 10 [], Write_prompt 1 10 [],
              Write_prompt 1 10 [], Newline, Write_prompt 1 10 []]\<rparr>)"
  using letters_then_submit [of default_game cooked "[]"]
  by (simp add: typed_def default_game_def)

text \<open>
  In the game as \<^verbatim>\<open>main\<close> constructs it, these four keys bring no word about an
  invalid number.
\<close>

theorem letters_then_submit_counterexample:
  "Invalid_number \<notin> set (out (snd (get_guess default_game (typed (''abc'' @ [CR])))))"
  by code_simp

end
